theory Spec2Isabelle
  imports Main "HOL-Library.Word" "HOL-Library.Multiset"
begin

section \<open>Events and timestamps\<close>

text \<open>
  The controller in \<^verbatim>\<open>api-server/controllers/controllersv1/kube.go\<close> streams
  Kubernetes events over a websocket. An instant (Go's \<^verbatim>\<open>time.Time\<close>, wrapped by
  \<^verbatim>\<open>metav1.Time\<close> and \<^verbatim>\<open>metav1.MicroTime\<close>) is its distance in nanoseconds from Go's
  zero instant, so that \<^verbatim>\<open>IsZero\<close> is the test against 0 and \<^verbatim>\<open>Before\<close> is \<open><\<close>.
  Go errors are their messages.
\<close>

type_synonym instant = int
type_synonym error = string

definition IsZero :: "instant \<Rightarrow> bool" where
  "IsZero t = (t = 0)"

definition Before :: "instant \<Rightarrow> instant \<Rightarrow> bool" where
  "Before t u = (t < u)"

record objectReference =
  Kind :: string
  UID :: string

record event =
  InvolvedObject :: objectReference
  Message :: string
  EventTime :: instant
  LastTimestamp :: instant
  FirstTimestamp :: instant

record pod =
  PodUID :: string
  Labels :: "string \<rightharpoonup> string"

record deployment =
  Name :: string

text \<open>
  The two constants of the package \<^verbatim>\<open>yatai-common/consts\<close> that the controller reads.
  Their values are not part of this repository, so they are parameters.
\<close>

record kubeConsts =
  KubeEventResourceKindPod :: string
  KubeLabelYataiDeployment :: string

text \<open>Indexing a Go \<^verbatim>\<open>map[string]string\<close> at a missing key gives the empty string.\<close>

definition label :: "pod \<Rightarrow> string \<Rightarrow> string" where
  "label p k = (case Labels p k of None \<Rightarrow> [] | Some v \<Rightarrow> v)"

section \<open>The relevance filter\<close>

text \<open>
  The closures assigned to \<^verbatim>\<open>filter\<close> (lines 88 and 109) and to \<^verbatim>\<open>eventFilter\<close>
  (lines 298 and 325), as data: the constant-true filter, the predicate made by
  \<^verbatim>\<open>MakeDeploymentKubeEventFilter\<close>, and the kind-and-UID test against one pod.
\<close>

datatype event_filter =
  Everything
  | DeploymentFilter "event \<Rightarrow> bool"
  | PodFilter string string

fun matches :: "event_filter \<Rightarrow> event \<Rightarrow> bool" where
  "matches Everything e = True"
| "matches (DeploymentFilter p) e = p e"
| "matches (PodFilter k u) e = (Kind (InvolvedObject e) = k \<and> UID (InvolvedObject e) = u)"

section \<open>Ordering\<close>

text \<open>
  The timestamp chosen inside the comparator of \<^verbatim>\<open>GetDeploymentKubeEvents\<close>
  (lines 391 to 399 for \<^verbatim>\<open>it\<close>, and the same code at 401 to 409 for \<^verbatim>\<open>jt\<close>):
  \<open>now\<close> is what \<^verbatim>\<open>time.Now()\<close> returned at that call.
\<close>

definition resolve :: "instant \<Rightarrow> event \<Rightarrow> instant" where
  "resolve now e =
     (if \<not> IsZero (EventTime e) then EventTime e
      else if \<not> IsZero (LastTimestamp e) then LastTimestamp e
      else if \<not> IsZero (FirstTimestamp e) then FirstTimestamp e
      else now)"

text \<open>
  A comparator takes the number of comparisons made before it in the same sort, since the
  comparator of the deployment variant reads the clock at each call: call \<open>k\<close> takes
  readings \<open>2 * k\<close> and \<open>2 * k + 1\<close> of the sequence \<open>clk\<close> of clock readings.
\<close>

type_synonym 'a comparator = "nat \<Rightarrow> 'a \<Rightarrow> 'a \<Rightarrow> bool"

definition podLess :: "event comparator" where
  "podLess k ie je = Before (LastTimestamp ie) (LastTimestamp je)"

definition deploymentLess :: "(nat \<Rightarrow> instant) \<Rightarrow> event comparator" where
  "deploymentLess clk k ie je =
     Before (resolve (clk (2 * k)) ie) (resolve (clk (2 * k + 1)) je)"

text \<open>
  \<^verbatim>\<open>sort.SliceStable\<close> of the Go library: an insertion sort (on slices of up to 20
  elements it is the whole algorithm; longer slices are sorted in blocks of 20 that are then
  merged, with the same result for a comparator that is a strict weak order). The inner
  loop \<^verbatim>\<open>for j := i; j > a && less(j, j-1); j--\<close> moves the new element \<open>x\<close> down
  the sorted prefix, which \<open>sink\<close> holds nearest element first; \<open>k\<close> counts the comparisons.
\<close>

fun sink :: "'a comparator \<Rightarrow> nat \<Rightarrow> 'a \<Rightarrow> 'a list \<Rightarrow> 'a list \<times> nat" where
  "sink lt k x [] = ([x], k)"
| "sink lt k x (y # ys) =
     (if lt k x y
      then (case sink lt (Suc k) x ys of (zs, k') \<Rightarrow> (y # zs, k'))
      else (x # y # ys, Suc k))"

fun insertionSort :: "'a comparator \<Rightarrow> nat \<Rightarrow> 'a list \<Rightarrow> 'a list \<Rightarrow> 'a list" where
  "insertionSort lt k acc [] = rev acc"
| "insertionSort lt k acc (x # xs) =
     (case sink lt k x acc of (acc', k') \<Rightarrow> insertionSort lt k' acc' xs)"

definition SliceStable :: "'a comparator \<Rightarrow> 'a list \<Rightarrow> 'a list" where
  "SliceStable lt xs = insertionSort lt 0 [] xs"

section \<open>The session\<close>

datatype WsRespType = WsRespTypeSuccess | WsRespTypeError

record WsRespSchema =
  RespType :: WsRespType
  RespMessage :: string
  Payload :: "event list"

text \<open>
  The variables that the closures and goroutines of one handler call share.
  \<open>closeCh\<close> is true once the channel is closed; \<open>toClose\<close> is true while the buffer
  (of capacity 1) of that channel holds a value; \<open>ctxDone\<close> is true once the request's
  context is done. \<open>conn\<close> is the trace of the envelopes written to the websocket, oldest
  first, and \<open>connClosed\<close> is true once \<^verbatim>\<open>conn.Close()\<close> has run. \<open>failedCount\<close> is an
  \<^verbatim>\<open>int32\<close>. \<open>slept\<close> adds up the seconds that the send path has spent in
  \<^verbatim>\<open>time.Sleep\<close>. \<open>seen\<close> is the map of line 350, by its keys (only the deployment
  variant reads it). \<open>eventFilter\<close> is the closure in force. \<open>handlerErr\<close> is the
  handler's variable \<^verbatim>\<open>err\<close>, and \<open>returned\<close> is true once the handler has left its last
  loop and run its deferred calls.
\<close>

record session =
  closeCh :: bool
  toClose :: bool
  ctxDone :: bool
  conn :: "WsRespSchema list"
  connClosed :: bool
  failedCount :: "32 word"
  slept :: nat
  seen :: "string set"
  eventFilter :: event_filter
  handlerErr :: "error option"
  returned :: bool

definition maxFailed :: "32 word" where
  "maxFailed = 10"

definition wsError :: "error \<Rightarrow> WsRespSchema" where
  "wsError m = \<lparr>RespType = WsRespTypeError, RespMessage = m, Payload = []\<rparr>"

text \<open>
  \<^verbatim>\<open>conn.WriteJSON\<close> of the websocket library. On a connection that has been closed it
  fails and writes nothing; the text of that error is never seen, since it could only be
  written to the closed connection. On an open connection the write succeeds or fails as
  \<open>res\<close> says, which is given from outside.
\<close>

definition WriteJSON ::
  "error option \<Rightarrow> WsRespSchema \<Rightarrow> session \<Rightarrow> session \<times> error option" where
  "WriteJSON res m s =
     (if connClosed s then (s, Some ''use of closed network connection'')
      else case res of
        None \<Rightarrow> (s\<lparr>conn := conn s @ [m]\<rparr>, None)
      | Some e \<Rightarrow> (s, Some e))"

text \<open>
  Modelled from the spec: \<^verbatim>\<open>writeWsError\<close> is defined in another file of the package,
  which is not among the sources. The spec has an error surfaced over the connection,
  best-effort, as an envelope of the same shape with type error and the error's message;
  with no error nothing is written.
\<close>

definition writeWsError :: "error option \<Rightarrow> session \<Rightarrow> session" where
  "writeWsError err s =
     (case err of
        None \<Rightarrow> s
      | Some m \<Rightarrow> fst (WriteJSON None (wsError m) s))"

text \<open>\<^verbatim>\<open>errors.Wrap(err, msg)\<close>: the message, a colon, the wrapped error.\<close>

definition Wrap :: "error \<Rightarrow> string \<Rightarrow> error" where
  "Wrap e msg = msg @ '': '' @ e"

text \<open>The closure \<^verbatim>\<open>failed\<close> (lines 129 and 345): count, then sleep ten seconds.\<close>

definition failed :: "session \<Rightarrow> session" where
  "failed s = s\<lparr>failedCount := failedCount s + 1, slept := slept s + 10\<rparr>"

text \<open>The deferred function of \<^verbatim>\<open>send\<close> (lines 142 and 360), on the send's own \<^verbatim>\<open>err\<close>.\<close>

definition sendDeferred :: "error option \<Rightarrow> session \<Rightarrow> session" where
  "sendDeferred err s =
     (let s' = writeWsError err s in if err \<noteq> None then failed s' else s')"

text \<open>
  What one call of \<^verbatim>\<open>send\<close> meets outside the handler: the result of
  \<^verbatim>\<open>eventLister.List\<close>, the readings of \<^verbatim>\<open>time.Now()\<close> in their order, whether the relay
  goroutine closes \<^verbatim>\<open>closeCh\<close> while the snapshot is being built (after the first
  \<^verbatim>\<open>select\<close> of the call), and the result of \<^verbatim>\<open>conn.WriteJSON\<close> on an open
  connection.
\<close>

record sendEnv =
  listResult :: "error + event list"
  clock :: "nat \<Rightarrow> instant"
  closedMeanwhile :: bool
  writeResult :: "error option"

text \<open>The loops of lines 158 and 377, which fill \<^verbatim>\<open>_events\<close>.\<close>

fun keepPod :: "event_filter \<Rightarrow> event list \<Rightarrow> event list" where
  "keepPod f [] = []"
| "keepPod f (e # es) = (if \<not> matches f e then keepPod f es else e # keepPod f es)"

fun keepDeployment :: "event_filter \<Rightarrow> string set \<Rightarrow> event list \<Rightarrow> event list" where
  "keepDeployment f sn [] = []"
| "keepDeployment f sn (e # es) =
     (if \<not> matches f e then keepDeployment f sn es
      else if Message e \<in> sn then keepDeployment f sn es
      else e # keepDeployment f sn es)"

definition success :: "event list \<Rightarrow> WsRespSchema" where
  "success evs = \<lparr>RespType = WsRespTypeSuccess, RespMessage = [], Payload = evs\<rparr>"

text \<open>\<^verbatim>\<open>send\<close> of \<^verbatim>\<open>GetPodKubeEvents\<close> (lines 134 to 181).\<close>

definition sendPod :: "sendEnv \<Rightarrow> session \<Rightarrow> session" where
  "sendPod env s =
     (if closeCh s then s
      else case listResult env of
        Inl e \<Rightarrow> sendDeferred (Some (Wrap e ''list events'')) s
      | Inr events \<Rightarrow>
          (let evs = SliceStable podLess (keepPod (eventFilter s) events);
               s1 = s\<lparr>closeCh := closeCh s \<or> closedMeanwhile env\<rparr>
           in case WriteJSON (writeResult env) (success evs) s1 of
                (s2, None) \<Rightarrow> sendDeferred None s2
              | (s2, Some e) \<Rightarrow> sendDeferred (Some (Wrap e ''ws write json'')) s2))"

text \<open>\<^verbatim>\<open>send\<close> of \<^verbatim>\<open>GetDeploymentKubeEvents\<close> (lines 352 to 425).\<close>

definition sendDeployment :: "sendEnv \<Rightarrow> session \<Rightarrow> session" where
  "sendDeployment env s =
     (if closeCh s then s
      else case listResult env of
        Inl e \<Rightarrow> sendDeferred (Some (Wrap e ''list events'')) s
      | Inr events \<Rightarrow>
          (let evs = SliceStable (deploymentLess (clock env))
                       (keepDeployment (eventFilter s) (seen s) events);
               s1 = s\<lparr>closeCh := closeCh s \<or> closedMeanwhile env\<rparr>
           in if closeCh s1 then sendDeferred None s1
              else case WriteJSON (writeResult env) (success evs) s1 of
                (s2, None) \<Rightarrow> sendDeferred None s2
              | (s2, Some e) \<Rightarrow> sendDeferred (Some e) s2))"

datatype variant = PodEvents | DeploymentEvents

fun send :: "variant \<Rightarrow> sendEnv \<Rightarrow> session \<Rightarrow> session" where
  "send PodEvents env s = sendPod env s"
| "send DeploymentEvents env s = sendDeployment env s"

section \<open>Goroutines and the watchdog\<close>

text \<open>
  \<^verbatim>\<open>doClose\<close> (lines 67 and 272): a send on \<^verbatim>\<open>toClose\<close> that does not block; with the
  buffer full it does nothing, so the buffer is full afterwards in both cases.
\<close>

definition doClose :: "session \<Rightarrow> session" where
  "doClose s = s\<lparr>toClose := True\<rparr>"

text \<open>
  The relay goroutine (lines 58 and 263): one \<^verbatim>\<open>select\<close> on the context and on
  \<^verbatim>\<open>toClose\<close>, then \<^verbatim>\<open>close(closeCh)\<close>, then it ends. With both ready Go picks either
  case; the cases differ only in whether the buffer of \<^verbatim>\<open>toClose\<close> is emptied.
\<close>

definition relay :: "session \<Rightarrow> session" where
  "relay s =
     (if closeCh s then s
      else if ctxDone s then s\<lparr>closeCh := True\<rparr>
      else if toClose s then s\<lparr>closeCh := True, toClose := False\<rparr>
      else s)"

text \<open>
  The deferred calls of the handler once \<^verbatim>\<open>doClose\<close> is among them, in the order in
  which they run: \<^verbatim>\<open>doClose()\<close>, \<^verbatim>\<open>writeWsError(conn, err)\<close>, \<^verbatim>\<open>conn.Close()\<close>.
\<close>

definition teardown :: "session \<Rightarrow> session" where
  "teardown s =
     (writeWsError (handlerErr s) (doClose s))\<lparr>connClosed := True, returned := True\<rparr>"

text \<open>
  One turn of the last loop of the handler (lines 216 to 229 and 460 to 473): the test of
  \<^verbatim>\<open>closeCh\<close>, the test of the counter, and otherwise the wait for the next tick. Leaving
  the loop is leaving the handler.
\<close>

definition watchdog :: "session \<Rightarrow> session" where
  "watchdog s =
     (if returned s then s
      else if closeCh s then teardown s
      else if sint (failedCount s) > sint maxFailed
        then teardown (s\<lparr>handlerErr := Some ''ws events failed too frequently!''\<rparr>)
      else s)"

text \<open>
  What happens to a streaming session, one at a time: the informer calls one of the three
  handlers of lines 185 and 429 with an event (the three bodies are the same), the ticker
  of the watchdog fires, \<^verbatim>\<open>conn.ReadMessage\<close> fails in the read monitor, the request's
  context is cancelled, the relay goroutine runs.
\<close>

datatype action =
  Notify event sendEnv
  | Tick
  | ReadError
  | CtxDone
  | Relay

fun step :: "variant \<Rightarrow> session \<Rightarrow> action \<Rightarrow> session" where
  "step v s (Notify e env) = (if \<not> matches (eventFilter s) e then s else send v env s)"
| "step v s Tick = watchdog s"
| "step v s ReadError = doClose s"
| "step v s CtxDone = s\<lparr>ctxDone := True\<rparr>"
| "step v s Relay = relay s"

definition run :: "variant \<Rightarrow> action list \<Rightarrow> session \<Rightarrow> session" where
  "run v acts s = foldl (step v) s acts"

section \<open>Setup\<close>

text \<open>
  What the collaborators of the setup answer to one request: the websocket upgrade,
  \<^verbatim>\<open>schema.GetDeployment\<close>, \<^verbatim>\<open>canView\<close>, \<^verbatim>\<open>schema.GetCluster\<close>,
  \<^verbatim>\<open>MakeDeploymentKubeEventFilter\<close>, the query parameter \<^verbatim>\<open>pod_name\<close>,
  \<^verbatim>\<open>GetKubeCliSet\<close>, \<^verbatim>\<open>podsCli.Get\<close> and \<^verbatim>\<open>GetEventInformer\<close>. The pod variant
  calls neither \<^verbatim>\<open>GetDeployment\<close> nor \<^verbatim>\<open>MakeDeploymentKubeEventFilter\<close>.
\<close>

record request =
  Upgrade :: "error option"
  GetDeployment :: "error + deployment"
  canView :: "error option"
  GetCluster :: "error option"
  MakeDeploymentKubeEventFilter :: "error + (event \<Rightarrow> bool)"
  podName :: string
  GetKubeCliSet :: "error option"
  podsGet :: "error + pod"
  GetEventInformer :: "error option"

datatype task = CloseRelay | ReadMonitor | CacheListener | Watchdog

text \<open>
  Where the setup stands when it ends: its error if it failed, whether the connection was
  upgraded, the goroutines started so far in their order, and the filter closure assigned
  so far.
\<close>

record setupOutcome =
  setupErr :: "error option"
  upgraded :: bool
  started :: "task list"
  installed :: "event_filter option"

definition abort :: "error \<Rightarrow> task list \<Rightarrow> event_filter option \<Rightarrow> setupOutcome" where
  "abort e ts f = \<lparr>setupErr = Some e, upgraded = True, started = ts, installed = f\<rparr>"

text \<open>The call of \<^verbatim>\<open>GetEventInformer\<close>, which ends both setups (lines 114 and 330).\<close>

definition acquireInformer :: "request \<Rightarrow> event_filter \<Rightarrow> setupOutcome" where
  "acquireInformer rq f =
     (case GetEventInformer rq of
        Some e \<Rightarrow> abort (Wrap e ''get event informer'') [CloseRelay, ReadMonitor] (Some f)
      | None \<Rightarrow> \<lparr>setupErr = None, upgraded = True, started = [CloseRelay, ReadMonitor],
                  installed = Some f\<rparr>)"

text \<open>\<^verbatim>\<open>GetPodKubeEvents\<close>, lines 33 to 118.\<close>

definition setupPod :: "kubeConsts \<Rightarrow> request \<Rightarrow> setupOutcome" where
  "setupPod c rq =
     (case Upgrade rq of
        Some e \<Rightarrow> \<lparr>setupErr = Some e, upgraded = False, started = [], installed = None\<rparr>
      | None \<Rightarrow>
     (case GetCluster rq of
        Some e \<Rightarrow> abort e [] None
      | None \<Rightarrow>
     (case canView rq of
        Some e \<Rightarrow> abort e [] None
      | None \<Rightarrow>
     (if podName rq \<noteq> [] then
        (case GetKubeCliSet rq of
           Some e \<Rightarrow> abort e [CloseRelay, ReadMonitor] (Some Everything)
         | None \<Rightarrow>
        (case podsGet rq of
           Inl e \<Rightarrow> abort e [CloseRelay, ReadMonitor] (Some Everything)
         | Inr p \<Rightarrow> acquireInformer rq (PodFilter (KubeEventResourceKindPod c) (PodUID p))))
      else acquireInformer rq Everything))))"

text \<open>\<^verbatim>\<open>GetDeploymentKubeEvents\<close>, lines 238 to 334.\<close>

definition setupDeployment :: "kubeConsts \<Rightarrow> request \<Rightarrow> setupOutcome" where
  "setupDeployment c rq =
     (case Upgrade rq of
        Some e \<Rightarrow> \<lparr>setupErr = Some e, upgraded = False, started = [], installed = None\<rparr>
      | None \<Rightarrow>
     (case GetDeployment rq of
        Inl e \<Rightarrow> abort e [] None
      | Inr d \<Rightarrow>
     (case canView rq of
        Some e \<Rightarrow> abort e [] None
      | None \<Rightarrow>
     (case GetCluster rq of
        Some e \<Rightarrow> abort e [CloseRelay, ReadMonitor] None
      | None \<Rightarrow>
     (case MakeDeploymentKubeEventFilter rq of
        Inl e \<Rightarrow> abort e [CloseRelay, ReadMonitor] None
      | Inr g \<Rightarrow>
     (if podName rq \<noteq> [] then
        (case GetKubeCliSet rq of
           Some e \<Rightarrow> abort e [CloseRelay, ReadMonitor] (Some (DeploymentFilter g))
         | None \<Rightarrow>
        (case podsGet rq of
           Inl e \<Rightarrow> abort e [CloseRelay, ReadMonitor] (Some (DeploymentFilter g))
         | Inr p \<Rightarrow>
        (if label p (KubeLabelYataiDeployment c) \<noteq> Name d
         then abort (''pod '' @ podName rq @ '' not in this deployment'')
                [CloseRelay, ReadMonitor] (Some (DeploymentFilter g))
         else acquireInformer rq (PodFilter (KubeEventResourceKindPod c) (PodUID p)))))
      else acquireInformer rq (DeploymentFilter g)))))))"

fun setupOf :: "variant \<Rightarrow> kubeConsts \<Rightarrow> request \<Rightarrow> setupOutcome" where
  "setupOf PodEvents c rq = setupPod c rq"
| "setupOf DeploymentEvents c rq = setupDeployment c rq"

section \<open>The handler\<close>

text \<open>The variables of lines 55 to 56, 126 and 350 as they are first set.\<close>

definition opened :: "event_filter \<Rightarrow> session" where
  "opened f = \<lparr>closeCh = False, toClose = False, ctxDone = False, conn = [],
     connClosed = False, failedCount = 0, slept = 0, seen = {}, eventFilter = f,
     handlerErr = None, returned = False\<rparr>"

text \<open>
  The session from the first \<^verbatim>\<open>send()\<close> on (lines 183 and 427): the eager send, the
  registration of the informer's handlers, the first turn of the watchdog, and then what
  happens to the session.
\<close>

definition streaming :: "variant \<Rightarrow> event_filter \<Rightarrow> sendEnv \<Rightarrow> action list \<Rightarrow> session" where
  "streaming v f env0 acts = run v acts (watchdog (send v env0 (opened f)))"

text \<open>
  A whole handler call: the goroutines it has started when the setup ends, and the session
  at the end. A failed upgrade leaves no connection; a later failure of the setup returns
  through the deferred calls registered so far (\<^verbatim>\<open>doClose\<close> only once the relay and the
  read monitor run), and the filter field of the session it leaves stands for nothing; a
  setup that succeeds starts the cache listener and the watchdog.
\<close>

definition handler ::
  "variant \<Rightarrow> kubeConsts \<Rightarrow> request \<Rightarrow> sendEnv \<Rightarrow> action list \<Rightarrow> task list \<times> session" where
  "handler v c rq env0 acts =
     (let st = setupOf v c rq in
      case setupErr st of
        Some e \<Rightarrow>
          (started st,
           if \<not> upgraded st
             then (opened Everything)
                    \<lparr>connClosed := True, handlerErr := Some e, returned := True\<rparr>
           else if started st = []
             then (writeWsError (Some e) (opened Everything))
                    \<lparr>connClosed := True, handlerErr := Some e, returned := True\<rparr>
           else teardown ((opened Everything)\<lparr>handlerErr := Some e\<rparr>))
      | None \<Rightarrow>
          (case installed st of
             None \<Rightarrow> (started st, opened Everything)
           | Some f \<Rightarrow> (started st @ [CacheListener, Watchdog], streaming v f env0 acts)))"

section \<open>Sequences of sends and failing sends\<close>


text \<open>
  Whether a call of \<^verbatim>\<open>send\<close> that got past its first \<^verbatim>\<open>select\<close> ends with its
  \<^verbatim>\<open>err\<close> set, so that its deferred function calls \<^verbatim>\<open>failed\<close>: the listing failed, or
  the write was reached and failed.
\<close>

definition writeFails :: "sendEnv \<Rightarrow> session \<Rightarrow> bool" where
  "writeFails env s = (connClosed s \<or> writeResult env \<noteq> None)"

definition sendFails :: "variant \<Rightarrow> sendEnv \<Rightarrow> session \<Rightarrow> bool" where
  "sendFails v env s =
     (case listResult env of
        Inl e \<Rightarrow> True
      | Inr evs \<Rightarrow>
          (case v of
             PodEvents \<Rightarrow> writeFails env s
           | DeploymentEvents \<Rightarrow> \<not> closedMeanwhile env \<and> writeFails env s))"

text \<open>An event that carries at least one of its three timestamps.\<close>

definition timed :: "event \<Rightarrow> bool" where
  "timed e =
     (\<not> IsZero (EventTime e) \<or> \<not> IsZero (LastTimestamp e) \<or> \<not> IsZero (FirstTimestamp e))"

section \<open>Concrete inputs\<close>

definition kube :: kubeConsts where
  "kube = \<lparr>KubeEventResourceKindPod = ''Pod'',
     KubeLabelYataiDeployment = ''yatai.ai/deployment''\<rparr>"

text \<open>
  An event as the core API records it, with first and last timestamps, and one as the
  events API records it, with the event time only.
\<close>

definition legacyEvent :: event where
  "legacyEvent = \<lparr>InvolvedObject = \<lparr>Kind = ''Pod'', UID = ''u1''\<rparr>, Message = ''Pulled image'',
     EventTime = 0, LastTimestamp = 3, FirstTimestamp = 3\<rparr>"

definition modernEvent :: event where
  "modernEvent = \<lparr>InvolvedObject = \<lparr>Kind = ''Pod'', UID = ''u1''\<rparr>, Message = ''Scheduled'',
     EventTime = 7, LastTimestamp = 0, FirstTimestamp = 0\<rparr>"

definition firstOnlyEvent :: event where
  "firstOnlyEvent = \<lparr>InvolvedObject = \<lparr>Kind = ''Pod'', UID = ''u1''\<rparr>, Message = ''Created'',
     EventTime = 0, LastTimestamp = 0, FirstTimestamp = 42\<rparr>"

text \<open>A send whose listing and write succeed, and one whose listing fails.\<close>

definition listing :: "event list \<Rightarrow> sendEnv" where
  "listing evs = \<lparr>listResult = Inr evs, clock = (\<lambda>n. 100 + int n), closedMeanwhile = False,
     writeResult = None\<rparr>"

definition brokenList :: sendEnv where
  "brokenList = \<lparr>listResult = Inl ''cache not synced'', clock = (\<lambda>n. 100 + int n),
     closedMeanwhile = False, writeResult = None\<rparr>"


text \<open>Requests whose collaborators all succeed, without a pod name.\<close>

definition podRequest :: request where
  "podRequest = \<lparr>Upgrade = None, GetDeployment = Inl ''not asked'', canView = None,
     GetCluster = None, MakeDeploymentKubeEventFilter = Inl ''not asked'', podName = [],
     GetKubeCliSet = None, podsGet = Inl ''not asked'', GetEventInformer = None\<rparr>"

definition deploymentRequest :: request where
  "deploymentRequest = \<lparr>Upgrade = None, GetDeployment = Inr \<lparr>Name = ''iris''\<rparr>, canView = None,
     GetCluster = None, MakeDeploymentKubeEventFilter = Inr (\<lambda>e. True), podName = [],
     GetKubeCliSet = None, podsGet = Inl ''not asked'', GetEventInformer = None\<rparr>"

definition strayPod :: pod where
  "strayPod = \<lparr>PodUID = ''u9'', Labels = [''yatai.ai/deployment'' \<mapsto> ''other'']\<rparr>"

section \<open>The sort\<close>

lemma mset_sink: "mset (fst (sink lt k x ys)) = add_mset x (mset ys)"
proof (induction ys arbitrary: k)
  case Nil
  then show ?case by simp
next
  case (Cons y ys)
  obtain zs k' where sk: "sink lt (Suc k) x ys = (zs, k')" by (cases "sink lt (Suc k) x ys")
  have "mset zs = add_mset x (mset ys)" using Cons [of "Suc k"] sk by simp
  with sk show ?case by simp
qed

lemma set_sink: "set (fst (sink lt k x ys)) = insert x (set ys)"
  using mset_sink [of lt k x ys] by (metis set_mset_add_mset_insert set_mset_mset)

lemma mset_insertionSort: "mset (insertionSort lt k acc xs) = mset acc + mset xs"
proof (induction xs arbitrary: k acc)
  case Nil
  then show ?case by simp
next
  case (Cons x xs)
  obtain acc' k' where sk: "sink lt k x acc = (acc', k')" by (cases "sink lt k x acc")
  have "mset acc' = add_mset x (mset acc)" using mset_sink [of lt k x acc] sk by simp
  with Cons sk show ?case by simp
qed

lemma mset_SliceStable: "mset (SliceStable lt xs) = mset xs"
  by (simp add: SliceStable_def mset_insertionSort)

text \<open>
  With a comparator that compares a key, whatever the number of the comparison, the
  insertion keeps the prefix sorted and keeps elements of equal keys in their order.
\<close>

lemma sink_keyed_sorted:
  fixes f :: "'a \<Rightarrow> 'b::linorder"
  assumes "\<And>k y. y \<in> set acc \<Longrightarrow> lt k x y = (f x < f y)"
    and "sorted_wrt (\<lambda>a b. f b \<le> f a) acc"
  shows "sorted_wrt (\<lambda>a b. f b \<le> f a) (fst (sink lt k x acc))"
  using assms
proof (induction acc arbitrary: k)
  case Nil
  then show ?case by simp
next
  case (Cons y ys)
  show ?case
  proof (cases "f x < f y")
    case True
    obtain zs k' where sk: "sink lt (Suc k) x ys = (zs, k')" by (cases "sink lt (Suc k) x ys")
    have zs: "zs = fst (sink lt (Suc k) x ys)" using sk by simp
    have "sorted_wrt (\<lambda>a b. f b \<le> f a) zs"
      unfolding zs using Cons.prems by (intro Cons.IH) auto
    moreover have "\<forall>z\<in>set zs. f z \<le> f y"
      unfolding zs set_sink using True Cons.prems(2) by auto
    moreover have "lt k x y" using True Cons.prems(1) [of y k] by simp
    ultimately show ?thesis using sk by simp
  next
    case False
    then have "\<not> lt k x y" using Cons.prems(1) [of y k] by simp
    moreover have "\<forall>z\<in>set (y # ys). f z \<le> f x" using False Cons.prems(2) by auto
    ultimately show ?thesis using Cons.prems(2) by simp
  qed
qed

lemma sink_keyed_stable:
  fixes f :: "'a \<Rightarrow> 'b::linorder"
  assumes "\<And>k y. y \<in> set acc \<Longrightarrow> lt k x y = (f x < f y)"
  shows "filter (\<lambda>z. c = f z) (rev (fst (sink lt k x acc))) =
    filter (\<lambda>z. c = f z) (rev acc @ [x])"
  using assms
proof (induction acc arbitrary: k)
  case Nil
  then show ?case by simp
next
  case (Cons y ys)
  show ?case
  proof (cases "f x < f y")
    case True
    obtain zs k' where sk: "sink lt (Suc k) x ys = (zs, k')" by (cases "sink lt (Suc k) x ys")
    have zs: "zs = fst (sink lt (Suc k) x ys)" using sk by simp
    have ih: "filter (\<lambda>z. c = f z) (rev zs) = filter (\<lambda>z. c = f z) (rev ys @ [x])"
      unfolding zs using Cons.prems by (intro Cons.IH) auto
    have "lt k x y" using True Cons.prems [of y k] by simp
    then have "fst (sink lt k x (y # ys)) = y # zs" using sk by simp
    then show ?thesis using ih True by auto
  next
    case False
    then have "\<not> lt k x y" using Cons.prems [of y k] by simp
    then show ?thesis by simp
  qed
qed

lemma insertionSort_keyed:
  fixes f :: "'a \<Rightarrow> 'b::linorder"
  assumes "\<And>k x y. x \<in> set acc \<union> set xs \<Longrightarrow> y \<in> set acc \<union> set xs \<Longrightarrow>
      lt k x y = (f x < f y)"
    and "sorted_wrt (\<lambda>a b. f b \<le> f a) acc"
  shows "sorted (map f (insertionSort lt k acc xs))
    \<and> (\<forall>c. filter (\<lambda>z. c = f z) (insertionSort lt k acc xs) =
          filter (\<lambda>z. c = f z) (rev acc @ xs))"
  using assms
proof (induction xs arbitrary: k acc)
  case Nil
  have "sorted (map f (rev acc))"
    using Nil.prems(2) by (simp add: sorted_map sorted_wrt_rev)
  then show ?case by simp
next
  case (Cons x xs)
  obtain acc' k' where sk: "sink lt k x acc = (acc', k')" by (cases "sink lt k x acc")
  have acc': "acc' = fst (sink lt k x acc)" using sk by simp
  have s: "sorted_wrt (\<lambda>a b. f b \<le> f a) acc'"
    unfolding acc' using Cons.prems by (intro sink_keyed_sorted) auto
  have st: "filter (\<lambda>z. c = f z) (rev acc') = filter (\<lambda>z. c = f z) (rev acc @ [x])" for c
    unfolding acc' using Cons.prems(1) by (intro sink_keyed_stable) auto
  have sub: "set acc' \<union> set xs = set acc \<union> set (x # xs)"
    unfolding acc' set_sink by auto
  have ih: "sorted (map f (insertionSort lt k' acc' xs))
    \<and> (\<forall>c. filter (\<lambda>z. c = f z) (insertionSort lt k' acc' xs) =
          filter (\<lambda>z. c = f z) (rev acc' @ xs))"
    using Cons.prems(1) s unfolding sub [symmetric] by (intro Cons.IH) auto
  show ?case using ih st sk by simp
qed

text \<open>
  So the model of \<^verbatim>\<open>sort.SliceStable\<close> is the stable sort by the key: it agrees with
  \<^const>\<open>sort_key\<close> of the library.
\<close>

lemma SliceStable_keyed:
  fixes f :: "'a \<Rightarrow> 'b::linorder"
  assumes "\<And>k x y. x \<in> set xs \<Longrightarrow> y \<in> set xs \<Longrightarrow> lt k x y = (f x < f y)"
  shows "SliceStable lt xs = sort_key f xs"
proof -
  have p: "sorted (map f (SliceStable lt xs))
    \<and> (\<forall>c. filter (\<lambda>z. c = f z) (SliceStable lt xs) = filter (\<lambda>z. c = f z) xs)"
    unfolding SliceStable_def using insertionSort_keyed [of "[]" xs lt f 0] assms by simp
  show ?thesis
  proof (rule properties_for_sort_key [symmetric])
    show "mset (SliceStable lt xs) = mset xs" by (rule mset_SliceStable)
    show "filter (\<lambda>x. f k = f x) (SliceStable lt xs) = filter (\<lambda>x. f k = f x) xs" for k
      using p by simp
    show "sorted (map f (SliceStable lt xs))" using p by simp
  qed
qed

text \<open>The pod variant sorts by the last-observed time and by nothing else.\<close>

lemma podLess_sorts: "SliceStable podLess xs = sort_key LastTimestamp xs"
  by (rule SliceStable_keyed) (simp add: podLess_def Before_def)

lemma resolve_timed: "timed e \<Longrightarrow> resolve now e = resolve 0 e"
  by (auto simp: timed_def resolve_def)

text \<open>
  The deployment variant sorts by the resolved timestamp, stably, when every event of the
  snapshot carries a timestamp, so that no comparison depends on the clock.
\<close>

lemma deploymentLess_sorts:
  assumes "\<forall>e\<in>set xs. timed e"
  shows "SliceStable (deploymentLess clk) xs = sort_key (resolve 0) xs"
proof (rule SliceStable_keyed)
  fix k x y
  assume "x \<in> set xs" and "y \<in> set xs"
  then have "timed x" and "timed y" using assms by simp_all
  then show "deploymentLess clk k x y = (resolve 0 x < resolve 0 y)"
    using resolve_timed [of x "clk (2 * k)"] resolve_timed [of y "clk (2 * k + 1)"]
    by (simp add: deploymentLess_def Before_def)
qed

section \<open>The filter loops\<close>

lemma keepPod_filter: "keepPod f es = filter (matches f) es"
  by (induction es) auto

lemma keepPod_Everything: "keepPod Everything es = es"
  by (induction es) simp_all

lemma keepDeployment_filter:
  "keepDeployment f sn es = filter (\<lambda>e. matches f e \<and> Message e \<notin> sn) es"
  by (induction es) auto

text \<open>The loop of the deployment variant does drop what the map holds.\<close>

lemma keepDeployment_drops_seen:
  "Message e \<in> sn \<Longrightarrow> e \<notin> set (keepDeployment f sn es)"
  by (simp add: keepDeployment_filter)

section \<open>One send\<close>

lemma opened_simps:
  "\<not> closeCh (opened f)" "\<not> returned (opened f)" "failedCount (opened f) = 0"
  "conn (opened f) = []" "eventFilter (opened f) = f" "seen (opened f) = {}"
  "slept (opened f) = 0" "handlerErr (opened f) = None" "\<not> connClosed (opened f)"
  by (simp_all add: opened_def)


lemma send_closed: "closeCh s \<Longrightarrow> send v env s = s"
  by (cases v) (simp_all add: sendPod_def sendDeployment_def)

lemma send_fails_count:
  "\<not> closeCh s \<Longrightarrow> sendFails v env s \<Longrightarrow>
     failedCount (send v env s) = failedCount s + 1 \<and> slept (send v env s) = slept s + 10"
  by (cases v)
    (auto simp: sendFails_def writeFails_def sendPod_def sendDeployment_def sendDeferred_def
      failed_def writeWsError_def WriteJSON_def Let_def split: sum.splits option.splits)

lemma send_ok_count:
  "\<not> sendFails v env s \<Longrightarrow>
     failedCount (send v env s) = failedCount s \<and> slept (send v env s) = slept s"
  by (cases v)
    (auto simp: sendFails_def writeFails_def sendPod_def sendDeployment_def sendDeferred_def
      failed_def writeWsError_def WriteJSON_def Let_def split: sum.splits option.splits)

lemma send_frame:
  "returned (send v env s) = returned s \<and> handlerErr (send v env s) = handlerErr s
   \<and> toClose (send v env s) = toClose s \<and> ctxDone (send v env s) = ctxDone s
   \<and> seen (send v env s) = seen s \<and> eventFilter (send v env s) = eventFilter s
   \<and> connClosed (send v env s) = connClosed s"
  by (cases v)
    (auto simp: sendPod_def sendDeployment_def sendDeferred_def failed_def
      writeWsError_def WriteJSON_def Let_def split: sum.splits option.splits)


text \<open>
  The deployment variant looks at \<^verbatim>\<open>closeCh\<close> again before it writes (line 414): a
  session cancelled while the snapshot was built gets no envelope and counts no failure.
\<close>

lemma sendDeployment_rechecks:
  "listResult env = Inr events \<Longrightarrow> closedMeanwhile env \<Longrightarrow>
     conn (sendDeployment env s) = conn s \<and> failedCount (sendDeployment env s) = failedCount s"
  by (simp add: sendDeployment_def Let_def sendDeferred_def writeWsError_def WriteJSON_def)


section \<open>The life of a session\<close>

lemma sint_succ:
  fixes w :: "32 word"
  assumes "sint w < 2 ^ 31 - 1"
  shows "sint (w + 1) = sint w + 1"
proof -
  have lo: "- (2 ^ 31) \<le> sint w" using sint_ge [of w] by simp
  have "sint (w + 1) = signed_take_bit 31 (sint w + 1)"
    by (simp add: sint_word_ariths)
  also have "\<dots> = sint w + 1"
    using lo assms by (intro signed_take_bit_int_eq_self) auto
  finally show ?thesis .
qed


text \<open>An action counts no failure, or counts one and sleeps ten seconds.\<close>

lemma step_cases_count:
  "failedCount (step v s a) = failedCount s \<and> slept (step v s a) = slept s
   \<or> failedCount (step v s a) = failedCount s + 1 \<and> slept (step v s a) = slept s + 10"
proof (cases a)
  case (Notify e env)
  show ?thesis
  proof (cases "\<not> matches (eventFilter s) e \<or> closeCh s \<or> \<not> sendFails v env s")
    case True
    then show ?thesis
      using Notify send_closed [of s v env] send_ok_count [of v env s] by auto
  next
    case False
    then show ?thesis using Notify send_fails_count [of s v env] by auto
  qed
next
  case Tick
  then show ?thesis
    by (simp add: watchdog_def teardown_def writeWsError_def WriteJSON_def doClose_def split: option.splits)
next
  case ReadError
  then show ?thesis by (simp add: doClose_def)
next
  case CtxDone
  then show ?thesis by simp
next
  case Relay
  then show ?thesis by (simp add: relay_def)
qed

lemma step_count_bounded:
  assumes "sint (failedCount s) < 2 ^ 31 - 1"
  shows "sint (failedCount s) \<le> sint (failedCount (step v s a))
    \<and> sint (failedCount (step v s a)) \<le> sint (failedCount s) + 1
    \<and> int (slept (step v s a)) - int (slept s) =
        10 * (sint (failedCount (step v s a)) - sint (failedCount s))"
  using step_cases_count [of v s a] sint_succ [OF assms] by auto

lemma run_Cons: "run v (a # acts) s = run v acts (step v s a)"
  by (simp add: run_def)

lemma run_count_bounded:
  "sint (failedCount s) + int (length acts) < 2 ^ 31 \<Longrightarrow>
     sint (failedCount s) \<le> sint (failedCount (run v acts s))
     \<and> sint (failedCount (run v acts s)) \<le> sint (failedCount s) + int (length acts)
     \<and> int (slept (run v acts s)) - int (slept s) =
         10 * (sint (failedCount (run v acts s)) - sint (failedCount s))"
proof (induction acts arbitrary: s)
  case Nil
  then show ?case by (simp add: run_def)
next
  case (Cons a acts)
  have b: "sint (failedCount s) < 2 ^ 31 - 1" using Cons.prems by simp
  note st = step_count_bounded [OF b, of v a]
  have "sint (failedCount (step v s a)) + int (length acts) < 2 ^ 31"
    using st Cons.prems by simp
  from Cons.IH [OF this] st have
    "sint (failedCount s) \<le> sint (failedCount (run v acts (step v s a)))
     \<and> sint (failedCount (run v acts (step v s a)))
         \<le> sint (failedCount s) + int (length (a # acts))
     \<and> int (slept (run v acts (step v s a))) - int (slept s) =
         10 * (sint (failedCount (run v acts (step v s a))) - sint (failedCount s))"
    by simp
  then show ?case by (simp add: run_Cons)
qed





text \<open>No action assigns the filter, and none writes the map of seen messages.\<close>

lemma step_frame: "seen (step v s a) = seen s \<and> eventFilter (step v s a) = eventFilter s"
proof (cases a)
  case (Notify e env)
  then show ?thesis using send_frame [of v env s] by simp
qed (simp_all add: watchdog_def teardown_def writeWsError_def WriteJSON_def doClose_def relay_def
    split: option.splits)

lemma run_frame: "eventFilter (run v acts s) = eventFilter s \<and> seen (run v acts s) = seen s"
proof (induction acts arbitrary: s)
  case Nil
  then show ?case by (simp add: run_def)
next
  case (Cons a acts)
  with Cons [of "step v s a"] step_frame [of v s a] show ?case by (simp add: run_Cons)
qed

lemma watchdog_frame: "eventFilter (watchdog s) = eventFilter s \<and> seen (watchdog s) = seen s"
  using step_frame [of PodEvents s Tick] by simp

lemma streaming_frame:
  "eventFilter (streaming v f env0 acts) = f \<and> seen (streaming v f env0 acts) = {}"
  by (simp add: streaming_def run_frame watchdog_frame send_frame opened_simps)



section \<open>The setup\<close>

lemma acquireInformer_started:
  "started (acquireInformer rq f) = [CloseRelay, ReadMonitor] \<and> upgraded (acquireInformer rq f)
   \<and> installed (acquireInformer rq f) = Some f"
  by (simp add: acquireInformer_def abort_def split: option.splits)

lemma setupPod_started:
  "started (setupPod c rq) = [] \<or> started (setupPod c rq) = [CloseRelay, ReadMonitor]"
  by (simp add: setupPod_def abort_def acquireInformer_started split: option.splits sum.splits)

lemma setupDeployment_started:
  "started (setupDeployment c rq) = []
   \<or> started (setupDeployment c rq) = [CloseRelay, ReadMonitor]"
  by (simp add: setupDeployment_def abort_def acquireInformer_started
      split: option.splits sum.splits)

lemma setupOf_started:
  "started (setupOf v c rq) = [] \<or> started (setupOf v c rq) = [CloseRelay, ReadMonitor]"
  by (cases v) (simp_all add: setupPod_started setupDeployment_started)

lemma setupPod_early:
  "Upgrade rq \<noteq> None \<or> canView rq \<noteq> None \<Longrightarrow> started (setupPod c rq) = []"
  by (auto simp: setupPod_def abort_def split: option.splits sum.splits)

lemma setupDeployment_early:
  "Upgrade rq \<noteq> None \<or> canView rq \<noteq> None \<Longrightarrow> started (setupDeployment c rq) = []"
  by (auto simp: setupDeployment_def abort_def split: option.splits sum.splits)

lemma setupOf_early:
  "Upgrade rq \<noteq> None \<or> canView rq \<noteq> None \<Longrightarrow> started (setupOf v c rq) = []"
  using setupPod_early [of rq c] setupDeployment_early [of rq c] by (cases v) auto

lemma handler_abort:
  assumes "setupErr (setupOf v c rq) = Some e"
  shows "fst (handler v c rq env0 acts) = started (setupOf v c rq)
    \<and> returned (snd (handler v c rq env0 acts))
    \<and> conn (snd (handler v c rq env0 acts)) =
        (if upgraded (setupOf v c rq) then [wsError e] else [])"
  using assms
  by (simp add: handler_def Let_def teardown_def writeWsError_def WriteJSON_def doClose_def opened_def)

lemma setupPod_upgraded: "upgraded (setupPod c rq) = (Upgrade rq = None)"
  by (simp add: setupPod_def abort_def acquireInformer_started split: option.splits sum.splits)

lemma setupDeployment_upgraded: "upgraded (setupDeployment c rq) = (Upgrade rq = None)"
  by (simp add: setupDeployment_def abort_def acquireInformer_started
      split: option.splits sum.splits)

lemma setupPod_first: "GetCluster rq \<noteq> None \<Longrightarrow> started (setupPod c rq) = []"
  by (auto simp: setupPod_def abort_def split: option.splits)

lemma setupDeployment_first: "isl (GetDeployment rq) \<Longrightarrow> started (setupDeployment c rq) = []"
  by (auto simp: setupDeployment_def abort_def split: option.splits sum.splits)

lemma setupPod_late:
  "Upgrade rq = None \<Longrightarrow> GetCluster rq = None \<Longrightarrow> canView rq = None \<Longrightarrow>
     started (setupPod c rq) = [CloseRelay, ReadMonitor]"
  by (simp add: setupPod_def abort_def acquireInformer_started split: option.splits sum.splits)

lemma setupDeployment_late:
  "Upgrade rq = None \<Longrightarrow> \<not> isl (GetDeployment rq) \<Longrightarrow> canView rq = None \<Longrightarrow>
     started (setupDeployment c rq) = [CloseRelay, ReadMonitor]"
  by (auto simp: setupDeployment_def abort_def acquireInformer_started
      split: option.splits sum.splits)

lemma setupPod_late_fails:
  "GetEventInformer rq \<noteq> None \<or> podName rq \<noteq> [] \<and> (GetKubeCliSet rq \<noteq> None \<or> isl (podsGet rq))
     \<Longrightarrow> setupErr (setupPod c rq) \<noteq> None"
  by (auto simp: setupPod_def abort_def acquireInformer_def split: option.splits sum.splits)

lemma setupDeployment_late_fails:
  "GetCluster rq \<noteq> None \<or> isl (MakeDeploymentKubeEventFilter rq) \<or> GetEventInformer rq \<noteq> None
   \<or> podName rq \<noteq> [] \<and> (GetKubeCliSet rq \<noteq> None \<or> isl (podsGet rq)
        \<or> label (projr (podsGet rq)) (KubeLabelYataiDeployment c) \<noteq> Name (projr (GetDeployment rq)))
     \<Longrightarrow> setupErr (setupDeployment c rq) \<noteq> None"
  by (auto simp: setupDeployment_def abort_def acquireInformer_def split: option.splits sum.splits)

lemma setupOf_upgraded: "upgraded (setupOf v c rq) = (Upgrade rq = None)"
  by (cases v) (simp_all add: setupPod_upgraded setupDeployment_upgraded)

lemma handler_abort_late:
  assumes "setupErr (setupOf v c rq) = Some e"
    and "started (setupOf v c rq) = [CloseRelay, ReadMonitor]"
  shows "toClose (snd (handler v c rq env0 acts))"
proof -
  have "Upgrade rq = None"
  proof (rule ccontr)
    assume "Upgrade rq \<noteq> None"
    then have "started (setupOf v c rq) = []" by (simp add: setupOf_early)
    with assms(2) show False by simp
  qed
  then have "upgraded (setupOf v c rq)" by (simp add: setupOf_upgraded)
  then show ?thesis
    using assms
    by (simp add: handler_def Let_def teardown_def writeWsError_def WriteJSON_def doClose_def
        opened_def)
qed

lemma handler_abort_closed:
  assumes "setupErr (setupOf v c rq) = Some e"
  shows "connClosed (snd (handler v c rq env0 acts))"
  using assms
  by (simp add: handler_def Let_def teardown_def writeWsError_def WriteJSON_def doClose_def
      opened_def)

section \<open>The claims of the specification\<close>

text \<open>
  Claim C1. In group mode an event whose message has been delivered in an earlier snapshot
  of the session is not in a later one: the build drops the events whose message is in the
  seen set, so that the same event, pushed twice, is delivered at most once in the life of
  the session.

  The loop does drop what the map holds (\<open>keepDeployment_drops_seen\<close>), but no line of
  the handler ever adds a message to the map (\<open>streaming_frame\<close>: it is empty throughout).
  A session whose cache holds one event, and which is notified of that event after its
  first snapshot, delivers the event in both snapshots.
\<close>

theorem seen_set_never_filled:
  "conn (streaming DeploymentEvents (DeploymentFilter (\<lambda>e. True)) (listing [legacyEvent])
      [Notify legacyEvent (listing [legacyEvent])])
     = [success [legacyEvent], success [legacyEvent]]
   \<and> seen (streaming DeploymentEvents (DeploymentFilter (\<lambda>e. True)) (listing [legacyEvent])
      [Notify legacyEvent (listing [legacyEvent])]) = {}"
  by (simp add: streaming_def run_def watchdog_def opened_def listing_def sendDeployment_def
      Let_def sendDeferred_def writeWsError_def WriteJSON_def maxFailed_def SliceStable_def)

text \<open>
  Claim C2. In both variants every snapshot is sorted, stably and ascending, by the
  resolved timestamp of each event: the event time, else the last-observed time, else the
  first-observed time, else the current instant.

  The deployment variant does so (\<open>deploymentLess_sorts\<close>). The pod variant compares
  \<^verbatim>\<open>LastTimestamp\<close> alone (\<open>podLess_sorts\<close>): with an event that has only its event time,
  resolved to 7, listed after one last observed at 3, it sends the later event first, where
  the deployment variant keeps the order of the resolved timestamps.
\<close>

theorem pod_sort_ignores_event_time:
  "conn (sendPod (listing [legacyEvent, modernEvent]) (opened Everything))
     = [success [modernEvent, legacyEvent]]
   \<and> resolve 100 legacyEvent = 3 \<and> resolve 100 modernEvent = 7
   \<and> conn (sendDeployment (listing [legacyEvent, modernEvent]) (opened Everything))
     = [success [legacyEvent, modernEvent]]"
  by (simp add: opened_def listing_def sendPod_def sendDeployment_def Let_def sendDeferred_def
      writeWsError_def WriteJSON_def SliceStable_def podLess_def deploymentLess_def resolve_def
      IsZero_def Before_def legacyEvent_def modernEvent_def)

text \<open>
  Claim C3. The resolver returns the explicit event time when it is set; otherwise the
  last-observed time when that is set; otherwise the first-observed time when that is set;
  otherwise the current instant of the call. In particular an event with only the
  first-observed time set resolves to exactly that time.
\<close>

theorem resolve_fallback_chain:
  "(\<not> IsZero (EventTime e) \<longrightarrow> resolve now e = EventTime e)
   \<and> (IsZero (EventTime e) \<and> \<not> IsZero (LastTimestamp e) \<longrightarrow> resolve now e = LastTimestamp e)
   \<and> (IsZero (EventTime e) \<and> IsZero (LastTimestamp e) \<and> \<not> IsZero (FirstTimestamp e)
        \<longrightarrow> resolve now e = FirstTimestamp e)
   \<and> (IsZero (EventTime e) \<and> IsZero (LastTimestamp e) \<and> IsZero (FirstTimestamp e)
        \<longrightarrow> resolve now e = now)"
  by (simp add: resolve_def)

theorem resolve_fallback_chain_witness:
  "IsZero (EventTime firstOnlyEvent) \<and> IsZero (LastTimestamp firstOnlyEvent)
   \<and> \<not> IsZero (FirstTimestamp firstOnlyEvent)
   \<and> resolve 1000 firstOnlyEvent = 42"
  using resolve_fallback_chain [of firstOnlyEvent 1000]
  by (simp add: IsZero_def firstOnlyEvent_def)

text \<open>
  Claim C4. In both variants every call of the send path looks at the cancellation signal
  again just before it writes the envelope, and writes nothing when the signal is set by
  then.

  The deployment variant does (\<open>sendDeployment_rechecks\<close>). The pod variant has the check
  at its start only: when the channel is closed while the snapshot is built, it still
  writes the envelope, where the deployment variant writes nothing.
\<close>

theorem pod_send_does_not_recheck:
  "closeCh (sendPod ((listing [legacyEvent])\<lparr>closedMeanwhile := True\<rparr>) (opened Everything))
   \<and> conn (sendPod ((listing [legacyEvent])\<lparr>closedMeanwhile := True\<rparr>) (opened Everything))
       = [success [legacyEvent]]
   \<and> conn (sendDeployment ((listing [legacyEvent])\<lparr>closedMeanwhile := True\<rparr>)
        (opened Everything)) = []"
  by (simp add: opened_def listing_def sendPod_def sendDeployment_def Let_def sendDeferred_def
      writeWsError_def WriteJSON_def SliceStable_def)



text \<open>
  Claim C6. The failure counter of a session never decreases and is never reset; every
  failed send adds exactly one to it and is followed by a cooldown of ten seconds before
  any further send of the session.

  Whatever happens to a session, in any order, the counter does not go down, and the time
  slept by the send path is ten seconds for each failure counted; a send that fails counts
  one and sleeps ten seconds before it returns; any other send counts and sleeps nothing.
  The counter is an \<^verbatim>\<open>int32\<close>: the statement is for counts below its largest value.
\<close>

theorem failure_counter_cumulative:
  assumes "sint (failedCount s) + int (length acts) < 2 ^ 31 - 1"
  shows "sint (failedCount s) \<le> sint (failedCount (run v acts s))
    \<and> int (slept (run v acts s)) - int (slept s) =
        10 * (sint (failedCount (run v acts s)) - sint (failedCount s))
    \<and> (\<not> closeCh s \<and> sendFails v env s \<longrightarrow>
         sint (failedCount (send v env s)) = sint (failedCount s) + 1
         \<and> slept (send v env s) = slept s + 10)
    \<and> (closeCh s \<or> \<not> sendFails v env s \<longrightarrow>
         failedCount (send v env s) = failedCount s \<and> slept (send v env s) = slept s)"
proof -
  have b: "sint (failedCount s) < 2 ^ 31 - 1" using assms by simp
  have r: "sint (failedCount s) + int (length acts) < 2 ^ 31" using assms by simp
  have one: "\<not> closeCh s \<and> sendFails v env s \<longrightarrow>
         sint (failedCount (send v env s)) = sint (failedCount s) + 1
         \<and> slept (send v env s) = slept s + 10"
    using send_fails_count [of s v env] sint_succ [OF b] by simp
  have none: "closeCh s \<or> \<not> sendFails v env s \<longrightarrow>
         failedCount (send v env s) = failedCount s \<and> slept (send v env s) = slept s"
    using send_closed [of s v env] send_ok_count [of v env s] by auto
  show ?thesis using run_count_bounded [OF r, of v] one none by simp
qed

theorem failure_counter_cumulative_witness:
  "sint (failedCount (opened Everything))
     + int (length [Notify legacyEvent brokenList, Tick, Notify legacyEvent (listing [legacyEvent])])
     < 2 ^ 31 - 1
   \<and> \<not> closeCh (opened Everything) \<and> sendFails PodEvents brokenList (opened Everything)
   \<and> sint (failedCount (send PodEvents brokenList (opened Everything))) = 1
   \<and> slept (send PodEvents brokenList (opened Everything)) = 10
   \<and> sint (failedCount (opened Everything)) \<le> sint (failedCount (run PodEvents
        [Notify legacyEvent brokenList, Tick, Notify legacyEvent (listing [legacyEvent])]
        (opened Everything)))"
  using failure_counter_cumulative [of "opened Everything"
      "[Notify legacyEvent brokenList, Tick, Notify legacyEvent (listing [legacyEvent])]"
      PodEvents brokenList]
  by (simp add: opened_simps sendFails_def brokenList_def)

text \<open>
  Claim C7. If a step of the setup fails (authorization, target resolution, filter
  construction, informer acquisition) the session aborts before it streams and no
  background task (read monitor, cache listener, watchdog) has been started.

  As stated this fails: both handlers start the relay and the read monitor right after the
  authorization check, before the cluster client, the filter, the pod and the informer are
  asked for. A deployment request whose informer cannot be acquired aborts with the read
  monitor started.
\<close>

theorem setup_failure_after_monitor_started:
  "setupErr (setupOf DeploymentEvents kube
       (deploymentRequest\<lparr>GetEventInformer := Some ''no informer''\<rparr>))
     = Some ''get event informer: no informer''
   \<and> ReadMonitor \<in> set (fst (handler DeploymentEvents kube
        (deploymentRequest\<lparr>GetEventInformer := Some ''no informer''\<rparr>) (listing []) []))"
  by (simp add: handler_def setupDeployment_def deploymentRequest_def acquireInformer_def
      abort_def Wrap_def)

text \<open>
  Claim C7, amended. If a step of the setup fails, the handler returns before it streams:
  it pushes no snapshot (the connection carries the error envelope and nothing else, and
  there is no connection when the upgrade itself failed), it starts neither the cache
  listener nor the watchdog, and it closes the connection. No goroutine has been started
  when the upgrade, the first lookup (the cluster in the pod variant, the deployment in the
  deployment variant) or the authorization check fails. When these three succeed and a
  later step fails, the relay and the read monitor, and nothing else, have been started,
  and the deferred \<^verbatim>\<open>doClose\<close> has signalled the relay. The later steps that make the
  setup fail are the informer, and with a pod name the cluster client and the pod lookup;
  in the deployment variant also the cluster lookup, the construction of the filter and the
  membership check of the pod.
\<close>

theorem setup_failure_aborts:
  "(setupErr (setupOf v c rq) = Some e \<longrightarrow>
      fst (handler v c rq env0 acts) = started (setupOf v c rq)
      \<and> CacheListener \<notin> set (fst (handler v c rq env0 acts))
      \<and> Watchdog \<notin> set (fst (handler v c rq env0 acts))
      \<and> returned (snd (handler v c rq env0 acts))
      \<and> connClosed (snd (handler v c rq env0 acts))
      \<and> conn (snd (handler v c rq env0 acts)) =
          (if Upgrade rq = None
           then [\<lparr>RespType = WsRespTypeError, RespMessage = e, Payload = []\<rparr>] else [])
      \<and> (Upgrade rq \<noteq> None \<or> canView rq \<noteq> None
           \<or> v = PodEvents \<and> GetCluster rq \<noteq> None
           \<or> v = DeploymentEvents \<and> isl (GetDeployment rq)
          \<longrightarrow> fst (handler v c rq env0 acts) = [])
      \<and> (Upgrade rq = None \<and> canView rq = None
           \<and> (v = PodEvents \<and> GetCluster rq = None
                \<or> v = DeploymentEvents \<and> \<not> isl (GetDeployment rq))
          \<longrightarrow> fst (handler v c rq env0 acts) = [CloseRelay, ReadMonitor]
              \<and> toClose (snd (handler v c rq env0 acts))))
   \<and> (GetEventInformer rq \<noteq> None
         \<or> podName rq \<noteq> [] \<and> (GetKubeCliSet rq \<noteq> None \<or> isl (podsGet rq))
       \<longrightarrow> setupErr (setupOf PodEvents c rq) \<noteq> None)
   \<and> (GetCluster rq \<noteq> None \<or> isl (MakeDeploymentKubeEventFilter rq)
         \<or> GetEventInformer rq \<noteq> None
         \<or> podName rq \<noteq> [] \<and> (GetKubeCliSet rq \<noteq> None \<or> isl (podsGet rq))
         \<or> podName rq \<noteq> [] \<and> podsGet rq = Inr p \<and> GetDeployment rq = Inr d
            \<and> label p (KubeLabelYataiDeployment c) \<noteq> Name d
       \<longrightarrow> setupErr (setupOf DeploymentEvents c rq) \<noteq> None)"
proof -
  have main: "fst (handler v c rq env0 acts) = started (setupOf v c rq)
      \<and> CacheListener \<notin> set (fst (handler v c rq env0 acts))
      \<and> Watchdog \<notin> set (fst (handler v c rq env0 acts))
      \<and> returned (snd (handler v c rq env0 acts))
      \<and> connClosed (snd (handler v c rq env0 acts))
      \<and> conn (snd (handler v c rq env0 acts)) =
          (if Upgrade rq = None
           then [\<lparr>RespType = WsRespTypeError, RespMessage = e, Payload = []\<rparr>] else [])
      \<and> (Upgrade rq \<noteq> None \<or> canView rq \<noteq> None
           \<or> v = PodEvents \<and> GetCluster rq \<noteq> None
           \<or> v = DeploymentEvents \<and> isl (GetDeployment rq)
          \<longrightarrow> fst (handler v c rq env0 acts) = [])
      \<and> (Upgrade rq = None \<and> canView rq = None
           \<and> (v = PodEvents \<and> GetCluster rq = None
                \<or> v = DeploymentEvents \<and> \<not> isl (GetDeployment rq))
          \<longrightarrow> fst (handler v c rq env0 acts) = [CloseRelay, ReadMonitor]
              \<and> toClose (snd (handler v c rq env0 acts)))"
    if f: "setupErr (setupOf v c rq) = Some e"
  proof -
    note h = handler_abort [OF f, of env0 acts]
    have cl: "connClosed (snd (handler v c rq env0 acts))"
      using f by (rule handler_abort_closed)
    have sh: "started (setupOf v c rq) = []
        \<or> started (setupOf v c rq) = [CloseRelay, ReadMonitor]"
      by (rule setupOf_started)
    have early: "Upgrade rq \<noteq> None \<or> canView rq \<noteq> None
           \<or> v = PodEvents \<and> GetCluster rq \<noteq> None
           \<or> v = DeploymentEvents \<and> isl (GetDeployment rq)
          \<Longrightarrow> started (setupOf v c rq) = []"
      using setupOf_early [of rq v c] setupPod_first [of rq c] setupDeployment_first [of rq c]
      by auto
    have late: "Upgrade rq = None \<and> canView rq = None
           \<and> (v = PodEvents \<and> GetCluster rq = None
                \<or> v = DeploymentEvents \<and> \<not> isl (GetDeployment rq))
          \<Longrightarrow> started (setupOf v c rq) = [CloseRelay, ReadMonitor]"
      using setupPod_late [of rq c] setupDeployment_late [of rq c] by auto
    have tc: "started (setupOf v c rq) = [CloseRelay, ReadMonitor]
        \<Longrightarrow> toClose (snd (handler v c rq env0 acts))"
      using f by (rule handler_abort_late)
    have cn: "conn (snd (handler v c rq env0 acts)) =
          (if Upgrade rq = None
           then [\<lparr>RespType = WsRespTypeError, RespMessage = e, Payload = []\<rparr>] else [])"
      using h by (simp add: setupOf_upgraded wsError_def)
    have nl: "CacheListener \<notin> set (fst (handler v c rq env0 acts))
        \<and> Watchdog \<notin> set (fst (handler v c rq env0 acts))"
      using h sh by auto
    show ?thesis using h cl cn nl early late tc by simp
  qed
  have pod: "GetEventInformer rq \<noteq> None
         \<or> podName rq \<noteq> [] \<and> (GetKubeCliSet rq \<noteq> None \<or> isl (podsGet rq))
       \<Longrightarrow> setupErr (setupOf PodEvents c rq) \<noteq> None"
    using setupPod_late_fails [of rq c] by simp
  have dep: "GetCluster rq \<noteq> None \<or> isl (MakeDeploymentKubeEventFilter rq)
         \<or> GetEventInformer rq \<noteq> None
         \<or> podName rq \<noteq> [] \<and> (GetKubeCliSet rq \<noteq> None \<or> isl (podsGet rq))
         \<or> podName rq \<noteq> [] \<and> podsGet rq = Inr p \<and> GetDeployment rq = Inr d
            \<and> label p (KubeLabelYataiDeployment c) \<noteq> Name d
       \<Longrightarrow> setupErr (setupOf DeploymentEvents c rq) \<noteq> None"
    using setupDeployment_late_fails [of rq c] by auto
  show ?thesis using main pod dep by blast
qed

theorem setup_failure_aborts_witness:
  "setupErr (setupOf DeploymentEvents kube
       (deploymentRequest\<lparr>podName := ''web-0'', podsGet := Inr strayPod\<rparr>))
     = Some ''pod web-0 not in this deployment''
   \<and> fst (handler DeploymentEvents kube
        (deploymentRequest\<lparr>podName := ''web-0'', podsGet := Inr strayPod\<rparr>)
        (listing [legacyEvent]) [Tick]) = [CloseRelay, ReadMonitor]
   \<and> toClose (snd (handler DeploymentEvents kube
        (deploymentRequest\<lparr>podName := ''web-0'', podsGet := Inr strayPod\<rparr>)
        (listing [legacyEvent]) [Tick]))
   \<and> conn (snd (handler DeploymentEvents kube
        (deploymentRequest\<lparr>podName := ''web-0'', podsGet := Inr strayPod\<rparr>)
        (listing [legacyEvent]) [Tick]))
       = [\<lparr>RespType = WsRespTypeError, RespMessage = ''pod web-0 not in this deployment'',
           Payload = []\<rparr>]
   \<and> setupErr (setupOf DeploymentEvents kube (deploymentRequest\<lparr>canView := Some ''forbidden''\<rparr>))
     = Some ''forbidden''
   \<and> fst (handler DeploymentEvents kube (deploymentRequest\<lparr>canView := Some ''forbidden''\<rparr>)
        (listing [legacyEvent]) [Tick]) = []"
proof -
  let ?late = "deploymentRequest\<lparr>podName := ''web-0'', podsGet := Inr strayPod\<rparr>"
  let ?early = "deploymentRequest\<lparr>canView := Some ''forbidden''\<rparr>"
  have l: "setupErr (setupOf DeploymentEvents kube ?late)
      = Some ''pod web-0 not in this deployment''"
    by (simp add: setupDeployment_def deploymentRequest_def strayPod_def kube_def label_def
        abort_def)
  have e: "setupErr (setupOf DeploymentEvents kube ?early) = Some ''forbidden''"
    by (simp add: setupDeployment_def deploymentRequest_def abort_def)
  have lh: "Upgrade ?late = None \<and> canView ?late = None \<and> \<not> isl (GetDeployment ?late)"
    by (simp add: deploymentRequest_def)
  have eh: "Upgrade ?early = None \<and> canView ?early \<noteq> None"
    by (simp add: deploymentRequest_def)
  have m: "fst (handler DeploymentEvents kube ?late (listing [legacyEvent]) [Tick])
        = [CloseRelay, ReadMonitor]
      \<and> toClose (snd (handler DeploymentEvents kube ?late (listing [legacyEvent]) [Tick]))
      \<and> conn (snd (handler DeploymentEvents kube ?late (listing [legacyEvent]) [Tick]))
        = [\<lparr>RespType = WsRespTypeError, RespMessage = ''pod web-0 not in this deployment'',
            Payload = []\<rparr>]"
    using setup_failure_aborts [of DeploymentEvents kube ?late
        "''pod web-0 not in this deployment''" "listing [legacyEvent]" "[Tick]"] l lh
    by auto
  have n: "fst (handler DeploymentEvents kube ?early (listing [legacyEvent]) [Tick]) = []"
    using setup_failure_aborts [of DeploymentEvents kube ?early "''forbidden''"
        "listing [legacyEvent]" "[Tick]"] e eh
    by auto
  have d: "fst (handler DeploymentEvents kube ?late (listing [legacyEvent]) [Tick])
      = [CloseRelay, ReadMonitor]"
    by (simp add: handler_def setupDeployment_def deploymentRequest_def strayPod_def kube_def
        label_def abort_def)
  show ?thesis using l e m n d by simp
qed

text \<open>
  Claim C9. In the pod variant, when no \<^verbatim>\<open>pod_name\<close> is given, the filter accepts every
  event, so the snapshots hold all the events that the cache lists.

  A setup that succeeds without a pod name installs the constant-true filter, which stays
  in force while the session streams; the loop then keeps the whole listing, and a send
  that reaches its write sends a success envelope whose payload is the listing, reordered
  and nothing else.
\<close>

theorem pod_without_selector_accepts_all:
  assumes "podName rq = []" and "setupErr (setupPod c rq) = None"
  shows "installed (setupPod c rq) = Some Everything
    \<and> matches Everything e
    \<and> snd (handler PodEvents c rq env0 acts) = streaming PodEvents Everything env0 acts
    \<and> eventFilter (streaming PodEvents Everything env0 acts) = Everything
    \<and> keepPod Everything events = events
    \<and> (eventFilter s = Everything \<and> \<not> closeCh s \<and> \<not> connClosed s
         \<and> listResult env = Inr events \<and> writeResult env = None \<longrightarrow>
       conn (sendPod env s) = conn s @
         [\<lparr>RespType = WsRespTypeSuccess, RespMessage = [],
           Payload = SliceStable podLess events\<rparr>]
       \<and> Payload (last (conn (sendPod env s))) = SliceStable podLess events
       \<and> mset (Payload (last (conn (sendPod env s)))) = mset events)"
proof -
  have i: "installed (setupPod c rq) = Some Everything"
    using assms
    by (auto simp: setupPod_def abort_def acquireInformer_def split: option.splits)
  have h: "snd (handler PodEvents c rq env0 acts) = streaming PodEvents Everything env0 acts"
    using assms(2) i by (simp add: handler_def Let_def)
  have w: "eventFilter s = Everything \<and> \<not> closeCh s \<and> \<not> connClosed s
         \<and> listResult env = Inr events \<and> writeResult env = None \<longrightarrow>
       conn (sendPod env s) = conn s @
         [\<lparr>RespType = WsRespTypeSuccess, RespMessage = [],
           Payload = SliceStable podLess events\<rparr>]"
    by (simp add: sendPod_def Let_def sendDeferred_def writeWsError_def WriteJSON_def
        keepPod_Everything success_def)
  show ?thesis using i h w by (simp add: streaming_frame keepPod_Everything mset_SliceStable)
qed

theorem pod_without_selector_accepts_all_witness:
  "podName podRequest = [] \<and> setupErr (setupPod kube podRequest) = None
   \<and> installed (setupPod kube podRequest) = Some Everything
   \<and> conn (snd (handler PodEvents kube podRequest (listing [modernEvent, legacyEvent]) []))
       = [\<lparr>RespType = WsRespTypeSuccess, RespMessage = [],
           Payload = [modernEvent, legacyEvent]\<rparr>]"
proof -
  have p: "podName podRequest = []" and s: "setupErr (setupPod kube podRequest) = None"
    by (simp_all add: podRequest_def setupPod_def acquireInformer_def)
  note t = pod_without_selector_accepts_all [OF p s, of legacyEvent
      "listing [modernEvent, legacyEvent]" "[]" "[modernEvent, legacyEvent]"
      "opened Everything" "listing [modernEvent, legacyEvent]"]
  have e: "SliceStable podLess [modernEvent, legacyEvent] = [modernEvent, legacyEvent]"
    by (simp add: SliceStable_def podLess_def Before_def modernEvent_def legacyEvent_def)
  have o: "eventFilter (opened Everything) = Everything \<and> \<not> closeCh (opened Everything)
      \<and> \<not> connClosed (opened Everything)
      \<and> listResult (listing [modernEvent, legacyEvent]) = Inr [modernEvent, legacyEvent]
      \<and> writeResult (listing [modernEvent, legacyEvent]) = None"
    by (simp add: opened_simps listing_def)
  have c1: "conn (sendPod (listing [modernEvent, legacyEvent]) (opened Everything))
      = [\<lparr>RespType = WsRespTypeSuccess, RespMessage = [],
           Payload = [modernEvent, legacyEvent]\<rparr>]"
    using t o e by (simp add: opened_simps)
  have d: "Payload (last (conn (sendPod (listing [modernEvent, legacyEvent])
      (opened Everything)))) = [modernEvent, legacyEvent]"
    using e
    by (simp add: sendPod_def Let_def sendDeferred_def writeWsError_def WriteJSON_def
        opened_def listing_def success_def)
  have fr: "\<not> returned (sendPod (listing [modernEvent, legacyEvent]) (opened Everything))
      \<and> \<not> closeCh (sendPod (listing [modernEvent, legacyEvent]) (opened Everything))
      \<and> failedCount (sendPod (listing [modernEvent, legacyEvent]) (opened Everything)) = 0"
    by (simp add: sendPod_def Let_def sendDeferred_def writeWsError_def WriteJSON_def
        opened_def listing_def)
  have c: "conn (streaming PodEvents Everything (listing [modernEvent, legacyEvent]) [])
      = [\<lparr>RespType = WsRespTypeSuccess, RespMessage = [],
           Payload = [modernEvent, legacyEvent]\<rparr>]"
    using c1 fr by (simp add: streaming_def run_def watchdog_def maxFailed_def)
  show ?thesis using p s t c d by simp
qed

text \<open>
  Claim C10. In the deployment variant, when a \<^verbatim>\<open>pod_name\<close> is given, the pod is checked
  against the deployment by its deployment label before the session streams: a pod of
  another deployment makes the setup fail with the error that the pod is not in this
  deployment, and the filter on that pod is never installed.

  When every earlier step of the setup succeeds and the label of the pod differs from the
  name of the deployment, the setup ends with that error, the filter in force is still the
  one of the deployment, the cache listener and the watchdog are not started, and the
  connection carries the error envelope and nothing else.
\<close>

theorem pod_not_in_deployment:
  assumes "Upgrade rq = None" and "GetDeployment rq = Inr d" and "canView rq = None"
    and "GetCluster rq = None" and "MakeDeploymentKubeEventFilter rq = Inr g"
    and "podName rq \<noteq> []" and "GetKubeCliSet rq = None" and "podsGet rq = Inr p"
    and "label p (KubeLabelYataiDeployment c) \<noteq> Name d"
  shows "setupErr (setupDeployment c rq) =
        Some (''pod '' @ podName rq @ '' not in this deployment'')
    \<and> installed (setupDeployment c rq) = Some (DeploymentFilter g)
    \<and> CacheListener \<notin> set (fst (handler DeploymentEvents c rq env0 acts))
    \<and> Watchdog \<notin> set (fst (handler DeploymentEvents c rq env0 acts))
    \<and> conn (snd (handler DeploymentEvents c rq env0 acts)) =
        [wsError (''pod '' @ podName rq @ '' not in this deployment'')]"
  using assms
  by (simp add: handler_def Let_def setupDeployment_def abort_def teardown_def writeWsError_def WriteJSON_def
      doClose_def opened_def)

theorem pod_not_in_deployment_witness:
  "podName (deploymentRequest\<lparr>podName := ''web-0'', podsGet := Inr strayPod\<rparr>) \<noteq> []
   \<and> label strayPod (KubeLabelYataiDeployment kube) \<noteq> Name \<lparr>Name = ''iris''\<rparr>
   \<and> setupErr (setupDeployment kube
        (deploymentRequest\<lparr>podName := ''web-0'', podsGet := Inr strayPod\<rparr>))
       = Some ''pod web-0 not in this deployment''
   \<and> conn (snd (handler DeploymentEvents kube
        (deploymentRequest\<lparr>podName := ''web-0'', podsGet := Inr strayPod\<rparr>)
        (listing [legacyEvent]) [Notify legacyEvent (listing [legacyEvent])]))
       = [wsError ''pod web-0 not in this deployment'']"
  using pod_not_in_deployment [of
      "deploymentRequest\<lparr>podName := ''web-0'', podsGet := Inr strayPod\<rparr>"
      "\<lparr>Name = ''iris''\<rparr>" "\<lambda>e. True" strayPod kube "listing [legacyEvent]"
      "[Notify legacyEvent (listing [legacyEvent])]"]
  by (simp add: deploymentRequest_def strayPod_def kube_def label_def)

end
